theory Spec2Isabelle
  imports Complex_Main
begin

section \<open>Numbers\<close>

text \<open>
  Python floats are modelled as real numbers and numpy's complex numbers as \<^typ>\<open>complex\<close>:
  the model is the exact arithmetic that the floating-point code approximates. Python's
  unbounded integers are \<^typ>\<open>int\<close>.
\<close>


text \<open>Python's built-in \<^verbatim>\<open>round(x)\<close>: to the nearest integer, a tie to the even one.\<close>

definition py_round :: "real \<Rightarrow> int" where
  "py_round x =
     (let f = \<lfloor>x\<rfloor>; r = x - of_int f
      in if r < 1 / 2 then f
         else if 1 / 2 < r then f + 1
         else if even f then f else f + 1)"


text \<open>\<^verbatim>\<open>numpy.linspace(start, stop, num, endpoint = False)\<close>.\<close>

definition linspace :: "real \<Rightarrow> real \<Rightarrow> nat \<Rightarrow> real list" where
  "linspace start stop num =
     map (\<lambda>k. start + real k * ((stop - start) / real num)) [0 ..< num]"

text \<open>\<^verbatim>\<open>numpy.arange(start, stop, step)\<close> on floats: \<open>ceil((stop - start) / step)\<close> values.\<close>

definition arange :: "real \<Rightarrow> real \<Rightarrow> real \<Rightarrow> real list" where
  "arange start stop step =
     map (\<lambda>k. start + real k * step) [0 ..< nat \<lceil>(stop - start) / step\<rceil>]"

definition degrees :: "real \<Rightarrow> real" where
  "degrees x = x * 180 / pi"

section \<open>Errors\<close>

text \<open>
  The two exceptions of \<^verbatim>\<open>dft_at_freq\<close> carry the sample interval and the frequency that
  their messages print; the others are Python's own.
\<close>

datatype error =
    TooLargeTimestep real real
  | TooSmallTimestep real real
  | ZeroDivisionError
  | ValueError

section \<open>The instrument port\<close>

datatype cmd =
    RUN
  | STOP
  | TFORCE
  | ACQ_MDEPTH_AUTO
  | ACQ_MDEPTH int
  | TIM_SCAL real
  | CHAN_SCAL int real
  | WAV_SOUR int
  | WAV_MODE_NORM
  | WAV_MODE_RAW
  | WAV_FORM_BYTE
  | WAV_STAR int
  | WAV_START int
  | WAV_STOP int

datatype query = WAV_YINC | WAV_YOR | WAV_YREF | WAV_XINC | WAV_DATA | ACQ_MDEPTH_Q

text \<open>
  What the program does to the outside, in order: commands written to the scope, queries
  sent to it, calls of the generator's \<^verbatim>\<open>set_frequency\<close> and of \<^verbatim>\<open>time.sleep\<close>.
\<close>

datatype event =
    Write cmd
  | Query query
  | AwgSetFrequency int real
  | Sleep real

text \<open>
  The scope's replies, each a function of everything that happened before the query.
  A reply is taken as well-formed: the number that \<^verbatim>\<open>float\<close> or \<^verbatim>\<open>int\<close> parses, the
  unsigned bytes of a binary block.
\<close>

record instr =
  reply_float :: "event list \<Rightarrow> query \<Rightarrow> real"
  reply_int :: "event list \<Rightarrow> query \<Rightarrow> int"
  reply_bytes :: "event list \<Rightarrow> nat list"

type_synonym 'a io = "event list \<Rightarrow> (error + 'a) \<times> event list"

definition ret :: "'a \<Rightarrow> 'a io" where
  "ret x evs = (Inr x, evs)"

definition raise :: "error \<Rightarrow> 'a io" where
  "raise e evs = (Inl e, evs)"

definition io_bind :: "'a io \<Rightarrow> ('a \<Rightarrow> 'b io) \<Rightarrow> 'b io" where
  "io_bind m f evs =
     (case m evs of
        (Inl e, evs') \<Rightarrow> (Inl e, evs')
      | (Inr x, evs') \<Rightarrow> f x evs')"

definition io_seq :: "unit io \<Rightarrow> 'b io \<Rightarrow> 'b io" where
  "io_seq m n = io_bind m (\<lambda>_. n)"

definition lift :: "error + 'a \<Rightarrow> 'a io" where
  "lift r evs = (r, evs)"

definition port_write :: "cmd \<Rightarrow> unit io" where
  "port_write c evs = (Inr (), evs @ [Write c])"

definition query_float :: "instr \<Rightarrow> query \<Rightarrow> real io" where
  "query_float ins q evs = (Inr (reply_float ins evs q), evs @ [Query q])"


definition query_binary_values :: "instr \<Rightarrow> nat list io" where
  "query_binary_values ins evs = (Inr (reply_bytes ins evs), evs @ [Query WAV_DATA])"

text \<open>\<^verbatim>\<open>time.sleep\<close> raises ValueError on a negative duration.\<close>

definition sleep :: "real \<Rightarrow> unit io" where
  "sleep t evs = (if t < 0 then (Inl ValueError, evs) else (Inr (), evs @ [Sleep t]))"


section \<open>DS1054Z\<close>

definition timebases :: "real list" where
  "timebases =
     [2 / 10 ^ 9, 5 / 10 ^ 9,
      1 / 10 ^ 8, 2 / 10 ^ 8, 5 / 10 ^ 8,
      1 / 10 ^ 7, 2 / 10 ^ 7, 5 / 10 ^ 7,
      1 / 10 ^ 6, 2 / 10 ^ 6, 5 / 10 ^ 6,
      1 / 10 ^ 5, 2 / 10 ^ 5, 5 / 10 ^ 5,
      1 / 10 ^ 4, 2 / 10 ^ 4, 5 / 10 ^ 4,
      1 / 10 ^ 3, 2 / 10 ^ 3, 5 / 10 ^ 3,
      1 / 10 ^ 2, 2 / 10 ^ 2, 5 / 10 ^ 2,
      1 / 10, 2 / 10, 5 / 10,
      1, 2, 5,
      10, 20, 50]"

definition vertical_scales :: "real list" where
  "vertical_scales =
     [1 / 10 ^ 2, 2 / 10 ^ 2, 5 / 10 ^ 2,
      1 / 10, 2 / 10, 5 / 10,
      1, 2, 5,
      10, 20, 50,
      100]"

text \<open>
  Python's \<^verbatim>\<open>min(xs, key = f)\<close>: the first element with the least key; ValueError on an
  empty sequence.
\<close>

fun min_key :: "('a \<Rightarrow> real) \<Rightarrow> 'a list \<Rightarrow> 'a option" where
  "min_key f [] = None"
| "min_key f (x # xs) = Some (fold (\<lambda>y best. if f y < f best then y else best) xs x)"

definition set_timebase :: "real \<Rightarrow> bool \<Rightarrow> unit io" where
  "set_timebase timebase rnd =
     (if rnd then
        (case min_key (\<lambda>x. \<bar>x - timebase\<bar>) timebases of
           None \<Rightarrow> raise ValueError
         | Some t \<Rightarrow> port_write (TIM_SCAL t))
      else port_write (TIM_SCAL timebase))"

definition set_channel_scale :: "int \<Rightarrow> real \<Rightarrow> bool \<Rightarrow> unit io" where
  "set_channel_scale channel scale rnd =
     (if rnd then
        (case min_key (\<lambda>x. \<bar>x - scale\<bar>) vertical_scales of
           None \<Rightarrow> raise ValueError
         | Some s \<Rightarrow> port_write (CHAN_SCAL channel s))
      else port_write (CHAN_SCAL channel scale))"

definition run :: "unit io" where
  "run = port_write RUN"

definition stop :: "unit io" where
  "stop = port_write STOP"

definition force_trigger :: "unit io" where
  "force_trigger = port_write TFORCE"



definition to_volts :: "real \<Rightarrow> real \<Rightarrow> real \<Rightarrow> nat list \<Rightarrow> real list" where
  "to_volts sample_scale sample_offset sample_ref data =
     map (\<lambda>d. (real d - sample_ref - sample_offset) * sample_scale) data"

definition fetch_data :: "instr \<Rightarrow> int \<Rightarrow> real list io" where
  "fetch_data ins channel =
     io_seq (port_write (WAV_SOUR channel))
    (io_seq (port_write WAV_MODE_NORM)
    (io_seq (port_write WAV_FORM_BYTE)
    (io_seq (port_write (WAV_STAR 1))
    (io_seq (port_write (WAV_STOP 1200))
    (io_bind (query_float ins WAV_YINC) (\<lambda>sample_scale.
     io_bind (query_float ins WAV_YOR) (\<lambda>sample_offset.
     io_bind (query_float ins WAV_YREF) (\<lambda>sample_ref.
     io_bind (query_binary_values ins) (\<lambda>data.
     ret (to_volts sample_scale sample_offset sample_ref data))))))))))"




text \<open>
  The arithmetic of \<^verbatim>\<open>dft_at_freq\<close>, from \<^verbatim>\<open>freq = float(freq)\<close> on: a function of the
  fetched data, the sample interval and the frequency. \<^verbatim>\<open>numpy.exp(math.tau * 1j * t)\<close>
  is \<^term>\<open>cis (2 * pi * t)\<close>, and \<^verbatim>\<open>cmath.phase\<close> is \<^const>\<open>Arg\<close>.
\<close>

definition dft_calc :: "real list \<Rightarrow> real \<Rightarrow> real \<Rightarrow> error + real \<times> real" where
  "dft_calc data interval freq =
     (if freq = 0 \<or> interval = 0 then Inl ZeroDivisionError
      else
        let samples_per_period = py_round ((1 / freq) / interval) in
        if samples_per_period < 5 then Inl (TooLargeTimestep interval freq)
        else
          let periods = int (length data) div samples_per_period;
              samples = periods * samples_per_period in
          if periods < 1 then Inl (TooSmallTimestep interval freq)
          else
            let exp_l = map (\<lambda>t. cis (2 * pi * t))
                          (linspace 0 (real_of_int periods) (nat samples));
                dft = sum_list (map2 (*) exp_l (map complex_of_real (take (nat samples) data)))
                        / of_int samples;
                amplitude = 4 * cmod dft;
                phase = degrees (Arg dft)
            in Inr (amplitude, phase))"


section \<open>The frequency response task\<close>

text \<open>\<^verbatim>\<open>np.max(np.abs(data))\<close>: ValueError on an empty array.\<close>

definition np_max_abs :: "real list \<Rightarrow> error + real" where
  "np_max_abs data =
     (case data of [] \<Rightarrow> Inl ValueError | x # xs \<Rightarrow> Inr (fold max (map abs xs) \<bar>x\<bar>))"


text \<open>The body of \<^verbatim>\<open>if autorange:\<close> in \<^verbatim>\<open>measure_response\<close>.\<close>

definition autorange_block :: "instr \<Rightarrow> real \<Rightarrow> unit io" where
  "autorange_block ins delay =
     io_seq (set_channel_scale 1 1 True)
    (io_seq (set_channel_scale 2 1 True)
    (io_seq force_trigger
    (io_seq (sleep delay)
    (io_seq stop
    (io_bind (fetch_data ins 1) (\<lambda>d1.
     io_bind (lift (np_max_abs d1)) (\<lambda>a1.
     io_bind (fetch_data ins 2) (\<lambda>d2.
     io_bind (lift (np_max_abs d2)) (\<lambda>a2.
     io_seq (set_channel_scale 1 (a1 / 4) True)
    (io_seq (set_channel_scale 2 (a2 / 4) True)
     run))))))))))"


text \<open>
  Modelled from the spec: \<^verbatim>\<open>sigfig.round(x, sigfigs = n)\<close> belongs to a third-party package
  that is not among the sources. It rounds \<open>x\<close> to \<open>n\<close> significant decimal figures, a tie
  away from zero; \<open>n\<close> is at least 1 wherever it is used below.
\<close>

definition sigfig_round :: "real \<Rightarrow> int \<Rightarrow> real" where
  "sigfig_round x n =
     (if x = 0 then 0
      else
        let e = \<lfloor>log 10 \<bar>x\<bar>\<rfloor>;
            q = 10 powr real_of_int (e - n + 1)
        in sgn x * real_of_int \<lfloor>\<bar>x\<bar> / q + 1 / 2\<rfloor> * q)"

text \<open>The frequency list of \<^verbatim>\<open>freqresp_iter\<close>; \<^verbatim>\<open>if lin_interval\<close> fails for \<^verbatim>\<open>None\<close> and 0.\<close>

definition log_freqs :: "real \<Rightarrow> real \<Rightarrow> int \<Rightarrow> error + real list" where
  "log_freqs freq_min freq_max log_stepsdec =
     (let sigfigs = \<lceil>real_of_int log_stepsdec / 10 + 1\<rceil> in
      if log_stepsdec = 0 then Inl ZeroDivisionError
      else
        let base = 10 powr (1 / real_of_int log_stepsdec) in
        if freq_min = 0 then Inl ZeroDivisionError
        else if freq_max / freq_min \<le> 0 then Inl ValueError
        else if ln base = 0 then Inl ZeroDivisionError
        else
          let steps = \<lceil>ln (freq_max / freq_min) / ln base\<rceil> in
          if freq_min \<le> 0 then Inl ValueError
          else
            let first = ln freq_min / ln base in
            Inr (map (\<lambda>x. sigfig_round (base powr (first + real x)) sigfigs)
                   [0 ..< nat (steps + 1)]))"

definition sweep_freqs :: "real \<Rightarrow> real \<Rightarrow> int \<Rightarrow> real option \<Rightarrow> error + real list" where
  "sweep_freqs freq_min freq_max log_stepsdec lin_interval =
     (case lin_interval of
        None \<Rightarrow> log_freqs freq_min freq_max log_stepsdec
      | Some i \<Rightarrow>
          if i = 0 then log_freqs freq_min freq_max log_stepsdec
          else Inr (arange freq_min freq_max i))"

record row =
  row_freq :: real
  row_amplitude :: real
  row_dB :: real
  row_phase :: real

text \<open>
  The generator's loop. The \<^verbatim>\<open>measure\<close> callback may be stateful, so a state is threaded
  through it. The result is the rows yielded, in order, and the exception that ended the
  iteration, if one did. \<^verbatim>\<open>math.log10\<close> raises ValueError unless its argument is positive.
\<close>

fun freqresp_loop ::
  "(real \<Rightarrow> 's \<Rightarrow> (error + real \<times> real) \<times> 's) \<Rightarrow> real list \<Rightarrow> 's
     \<Rightarrow> (row list \<times> error option) \<times> 's" where
  "freqresp_loop measure_fn [] s = (([], None), s)"
| "freqresp_loop measure_fn (f # fs) s =
     (case measure_fn f s of
        (Inl e, s') \<Rightarrow> (([], Some e), s')
      | (Inr (a, p), s') \<Rightarrow>
          if a \<le> 0 then (([], Some ValueError), s')
          else
            (case freqresp_loop measure_fn fs s' of
               ((rows, r), s'') \<Rightarrow>
                 ((\<lparr>row_freq = f, row_amplitude = a, row_dB = 10 * log 10 a, row_phase = p\<rparr> # rows, r), s'')))"

definition freqresp_iter ::
  "real \<Rightarrow> real \<Rightarrow> int \<Rightarrow> real option \<Rightarrow> (real \<Rightarrow> 's \<Rightarrow> (error + real \<times> real) \<times> 's) \<Rightarrow> 's
     \<Rightarrow> (row list \<times> error option) \<times> 's" where
  "freqresp_iter freq_min freq_max log_stepsdec lin_interval measure_fn s =
     (case sweep_freqs freq_min freq_max log_stepsdec lin_interval of
        Inl e \<Rightarrow> (([], Some e), s)
      | Inr freqs \<Rightarrow> freqresp_loop measure_fn freqs s)"

section \<open>The specification's coefficient\<close>

text \<open>
  The complex coefficient in the specification's words: the first \<open>n\<close> samples, each
  multiplied by a unit-magnitude complex exponential whose phase advances linearly from 0
  to \<open>periods\<close> full turns across the \<open>n\<close> samples, summed and divided by \<open>n\<close>.
\<close>

definition spec_coeff :: "real list \<Rightarrow> int \<Rightarrow> nat \<Rightarrow> complex" where
  "spec_coeff data periods n =
     (\<Sum>k<n. cis (2 * pi * (real k * (real_of_int periods / real n))) * complex_of_real (data ! k))
       / of_nat n"

text \<open>A buffer that repeats with period \<open>p\<close>: each sample equals the one \<open>p\<close> places on.\<close>

definition periodic :: "nat \<Rightarrow> real list \<Rightarrow> bool" where
  "periodic p xs = list_all (\<lambda>i. xs ! (i + p) = xs ! i) [0 ..< length xs - p]"

section \<open>The specification's view of a sweep\<close>

text \<open>
  The measure function succeeds on each point of the sweep: called on the frequencies in
  order, each call from the state the previous one left, it returns a pair every time.
\<close>

fun measure_succeeds ::
  "(real \<Rightarrow> 's \<Rightarrow> (error + real \<times> real) \<times> 's) \<Rightarrow> real list \<Rightarrow> 's \<Rightarrow> bool" where
  "measure_succeeds measure_fn [] s = True"
| "measure_succeeds measure_fn (f # fs) s =
     (case measure_fn f s of
        (Inl e, s') \<Rightarrow> False
      | (Inr (a, p), s') \<Rightarrow> measure_succeeds measure_fn fs s')"

text \<open>The pairs that the measure function returns at the frequencies, in order.\<close>

fun measure_results ::
  "(real \<Rightarrow> 's \<Rightarrow> (error + real \<times> real) \<times> 's) \<Rightarrow> real list \<Rightarrow> 's \<Rightarrow> (real \<times> real) list" where
  "measure_results measure_fn [] s = []"
| "measure_results measure_fn (f # fs) s =
     (case measure_fn f s of
        (Inl e, s') \<Rightarrow> []
      | (Inr r, s') \<Rightarrow> r # measure_results measure_fn fs s')"

text \<open>The result row of the specification for a frequency and the pair measured there.\<close>

definition spec_row :: "real \<Rightarrow> real \<times> real \<Rightarrow> row" where
  "spec_row f r = \<lparr>row_freq = f, row_amplitude = fst r, row_dB = 10 * log 10 (fst r), row_phase = snd r\<rparr>"

section \<open>Event traces\<close>


text \<open>The commands and queries of one \<^verbatim>\<open>fetch_data\<close> call.\<close>

definition fetch_events :: "int \<Rightarrow> event list" where
  "fetch_events channel =
     [Write (WAV_SOUR channel), Write WAV_MODE_NORM, Write WAV_FORM_BYTE, Write (WAV_STAR 1),
      Write (WAV_STOP 1200), Query WAV_YINC, Query WAV_YOR, Query WAV_YREF, Query WAV_DATA]"


text \<open>A scope whose every sample is 0 V: no signal on either channel.\<close>

definition silent_scope :: instr where
  "silent_scope =
     \<lparr>reply_float = (\<lambda>evs q. if q = WAV_YINC then 1 else 0),
      reply_int = (\<lambda>evs q. 0),
      reply_bytes = (\<lambda>evs. [0])\<rparr>"

section \<open>Auxiliary facts\<close>


lemma fold_min_key_mem:
  "fold (\<lambda>y best. if f y < f best then y else best) xs x \<in> set (x # xs)"
  by (induction xs arbitrary: x) auto

lemma fold_min_key_le:
  fixes f :: "'a \<Rightarrow> real"
  shows "f (fold (\<lambda>y best. if f y < f best then y else best) xs x) \<le> f x \<and>
         (\<forall>z\<in>set xs. f (fold (\<lambda>y best. if f y < f best then y else best) xs x) \<le> f z)"
proof (induction xs arbitrary: x)
  case Nil
  show ?case by simp
next
  case (Cons a xs)
  let ?r = "\<lambda>b. f (fold (\<lambda>y best. if f y < f best then y else best) xs b)"
  have ihx: "?r x \<le> f x" "\<forall>z\<in>set xs. ?r x \<le> f z" using Cons.IH[of x] by simp_all
  have iha: "?r a \<le> f a" "\<forall>z\<in>set xs. ?r a \<le> f z" using Cons.IH[of a] by simp_all
  show ?case
  proof (cases "f a < f x")
    case True
    with iha show ?thesis by auto
  next
    case False
    with ihx show ?thesis by auto
  qed
qed

lemma min_key_Some:
  fixes f :: "'a \<Rightarrow> real"
  assumes "xs \<noteq> []"
  shows "\<exists>v. min_key f xs = Some v \<and> v \<in> set xs \<and> (\<forall>z\<in>set xs. f v \<le> f z)"
proof (cases xs)
  case Nil with assms show ?thesis by simp
next
  case (Cons x xs')
  then show ?thesis
    using fold_min_key_mem[of f xs' x] fold_min_key_le[of f xs' x] by auto
qed

section \<open>Phase difference of the two channels\<close>



section \<open>Rounding a requested scale to the instrument's steps\<close>

text \<open>
  C10. With rounding enabled, \<^verbatim>\<open>set_channel_scale\<close> writes one command, whose value is an
  element of the list of vertical scales 0.01, 0.02, 0.05, ..., 50, 100 at the least distance
  from the requested scale, and \<^verbatim>\<open>set_timebase\<close> writes an element of the list of
  timebases at the least distance from the requested one. The value written is positive; a
  requested scale of 0 writes 0.01.
\<close>

theorem set_scale_nearest:
  "(\<exists>v. set_channel_scale channel s True evs = (Inr (), evs @ [Write (CHAN_SCAL channel v)])
        \<and> v \<in> set vertical_scales \<and> (\<forall>x\<in>set vertical_scales. \<bar>v - s\<bar> \<le> \<bar>x - s\<bar>) \<and> 0 < v)
   \<and> (\<exists>t. set_timebase tb True evs = (Inr (), evs @ [Write (TIM_SCAL t)])
        \<and> t \<in> set timebases \<and> (\<forall>x\<in>set timebases. \<bar>t - tb\<bar> \<le> \<bar>x - tb\<bar>) \<and> 0 < t)
   \<and> set_channel_scale channel 0 True evs = (Inr (), evs @ [Write (CHAN_SCAL channel (1 / 100))])
   \<and> set vertical_scales = {1 / 100, 2 / 100, 5 / 100, 1 / 10, 2 / 10, 5 / 10, 1, 2, 5, 10, 20, 50, 100}"
proof -
  have vne: "vertical_scales \<noteq> []" by (simp add: vertical_scales_def)
  have tne: "timebases \<noteq> []" by (simp add: timebases_def)
  have vpos: "\<forall>x\<in>set vertical_scales. 0 < x" by (simp add: vertical_scales_def)
  have tpos: "\<forall>x\<in>set timebases. 0 < x" by (simp add: timebases_def)
  obtain v where v: "min_key (\<lambda>x. \<bar>x - s\<bar>) vertical_scales = Some v" "v \<in> set vertical_scales"
      "\<forall>z\<in>set vertical_scales. \<bar>v - s\<bar> \<le> \<bar>z - s\<bar>"
    using min_key_Some[OF vne, of "\<lambda>x. \<bar>x - s\<bar>"] by blast
  obtain t where t: "min_key (\<lambda>x. \<bar>x - tb\<bar>) timebases = Some t" "t \<in> set timebases"
      "\<forall>z\<in>set timebases. \<bar>t - tb\<bar> \<le> \<bar>z - tb\<bar>"
    using min_key_Some[OF tne, of "\<lambda>x. \<bar>x - tb\<bar>"] by blast
  have 1: "\<exists>v. set_channel_scale channel s True evs = (Inr (), evs @ [Write (CHAN_SCAL channel v)])
        \<and> v \<in> set vertical_scales \<and> (\<forall>x\<in>set vertical_scales. \<bar>v - s\<bar> \<le> \<bar>x - s\<bar>) \<and> 0 < v"
    using v vpos by (intro exI[of _ v]) (simp add: set_channel_scale_def port_write_def)
  have 2: "\<exists>t. set_timebase tb True evs = (Inr (), evs @ [Write (TIM_SCAL t)])
        \<and> t \<in> set timebases \<and> (\<forall>x\<in>set timebases. \<bar>t - tb\<bar> \<le> \<bar>x - tb\<bar>) \<and> 0 < t"
    using t tpos by (intro exI[of _ t]) (simp add: set_timebase_def port_write_def)
  have 3: "set_channel_scale channel 0 True evs = (Inr (), evs @ [Write (CHAN_SCAL channel (1 / 100))])"
    by (simp add: set_channel_scale_def port_write_def vertical_scales_def)
  have 4: "set vertical_scales = {1 / 100, 2 / 100, 5 / 100, 1 / 10, 2 / 10, 5 / 10, 1, 2, 5, 10, 20, 50, 100}"
    by (simp add: vertical_scales_def)
  from 1 2 3 4 show ?thesis by blast
qed

theorem set_scale_nearest_witness:
  "1 / 100 \<in> set vertical_scales \<and> 1 / 1000 \<in> set timebases
   \<and> (\<exists>v. set_channel_scale 1 (3 / 100) True [] = (Inr (), [Write (CHAN_SCAL 1 v)])
          \<and> \<bar>v - 3 / 100\<bar> \<le> \<bar>1 / 100 - 3 / 100\<bar> \<and> 0 < v)
   \<and> (\<exists>t. set_timebase (3 / 1000) True [] = (Inr (), [Write (TIM_SCAL t)])
          \<and> \<bar>t - 3 / 1000\<bar> \<le> \<bar>1 / 1000 - 3 / 1000\<bar> \<and> 0 < t)"
proof -
  have a: "(1 / 100 :: real) \<in> set vertical_scales" by (simp add: vertical_scales_def)
  have b: "(1 / 1000 :: real) \<in> set timebases" by (simp add: timebases_def)
  from a b set_scale_nearest[of 1 "3 / 100" "[]" "3 / 1000"] show ?thesis
    by (metis append_Nil)
qed

section \<open>The single-frequency spectral extractor\<close>

lemma take_as_map_nth: "n \<le> length xs \<Longrightarrow> take n xs = map (\<lambda>k. xs ! k) [0 ..< n]"
proof -
  assume n: "n \<le> length xs"
  have "take n xs = take n (map (\<lambda>k. xs ! k) [0 ..< length xs])" by (simp add: map_nth)
  also have "\<dots> = map (\<lambda>k. xs ! k) (take n [0 ..< length xs])" by (simp add: take_map)
  also have "take n [0 ..< length xs] = [0 ..< n]" using n by (simp add: take_upt)
  finally show ?thesis .
qed

lemma sum_list_map2_upt:
  fixes f :: "nat \<Rightarrow> complex"
  assumes "n \<le> length xs"
  shows "sum_list (map2 (*) (map f [0 ..< n]) (map g (take n xs))) = (\<Sum>k<n. f k * g (xs ! k))"
proof -
  have "map2 (*) (map f [0 ..< n]) (map g (take n xs))
        = map (\<lambda>k. f k * g (xs ! k)) [0 ..< n]"
    by (simp add: take_as_map_nth[OF assms] zip_map_map zip_same_conv_map)
  then show ?thesis
    by (simp add: interv_sum_list_conv_sum_set_nat atLeast0LessThan)
qed

lemma samples_le_length:
  assumes "0 < spp"
  shows "nat ((int n div spp) * spp) \<le> n"
proof -
  have "(int n div spp) * spp \<le> int n"
    using assms pos_mod_sign[of spp "int n"] div_mult_mod_eq[of "int n" spp] by linarith
  then show ?thesis by linarith
qed

lemma dft_calc_ok:
  assumes "freq \<noteq> 0" "interval \<noteq> 0"
    and "5 \<le> py_round ((1 / freq) / interval)"
    and "1 \<le> int (length data) div py_round ((1 / freq) / interval)"
  shows "dft_calc data interval freq =
     (let spp = py_round ((1 / freq) / interval);
          periods = int (length data) div spp;
          c = spec_coeff data periods (nat (periods * spp))
      in Inr (4 * cmod c, degrees (Arg c)))"
proof -
  let ?spp = "py_round ((1 / freq) / interval)"
  let ?p = "int (length data) div ?spp"
  let ?n = "nat (?p * ?spp)"
  have le: "?n \<le> length data" using assms(3) by (intro samples_le_length) simp
  have pos: "0 \<le> ?p * ?spp" using assms(3,4) by simp
  have s: "sum_list (map2 (*) (map (\<lambda>t. cis (2 * pi * t)) (linspace 0 (real_of_int ?p) ?n))
                  (map complex_of_real (take ?n data)))
           = (\<Sum>k<?n. cis (2 * pi * (real k * (real_of_int ?p / real ?n))) * complex_of_real (data ! k))"
    unfolding linspace_def map_map comp_def
    using sum_list_map2_upt[OF le, of "\<lambda>k. cis (2 * pi * (0 + real k * ((real_of_int ?p - 0) / real ?n)))" complex_of_real]
    by simp
  have n: "(of_int (?p * ?spp) :: complex) = of_nat ?n" using pos
    by (metis of_int_of_nat_eq int_nat_eq)
  show ?thesis
    using assms unfolding dft_calc_def Let_def spec_coeff_def s n
    by simp
qed






section \<open>Time shifts of a periodic buffer\<close>

lemma periodicD: "periodic p xs \<Longrightarrow> i + p < length xs \<Longrightarrow> xs ! (i + p) = xs ! i"
  by (simp add: periodic_def list_all_iff)

lemma periodic_mod:
  assumes "periodic p xs" and "0 < p"
  shows "j < length xs \<Longrightarrow> xs ! j = xs ! (j mod p)"
proof (induction j rule: less_induct)
  case (less j)
  show ?case
  proof (cases "j < p")
    case True then show ?thesis by simp
  next
    case False
    then have j: "j = (j - p) + p" by simp
    have "xs ! j = xs ! (j - p)" using periodicD[OF assms(1), of "j - p"] less.prems False by simp
    also have "\<dots> = xs ! ((j - p) mod p)" using less.IH[of "j - p"] less.prems False assms(2) by simp
    also have "(j - p) mod p = j mod p" using False by (simp add: le_mod_geq)
    finally show ?thesis .
  qed
qed

lemma sum_shift_one:
  fixes g :: "nat \<Rightarrow> complex"
  shows "(\<Sum>k<n. g (Suc k)) = (\<Sum>k<n. g k) - g 0 + g n"
proof -
  have "g 0 + (\<Sum>k<n. g (Suc k)) = (\<Sum>k<n. g k) + g n"
    using sum.lessThan_Suc_shift[of g n] sum.lessThan_Suc[of g n] by simp
  then show ?thesis by (simp add: algebra_simps)
qed

lemma periodic_fun_mult:
  fixes g :: "nat \<Rightarrow> complex"
  assumes "\<forall>j. g (j + q) = g j"
  shows "g (j + p * q) = g j"
proof (induction p)
  case 0 show ?case by simp
next
  case (Suc p)
  have "g (j + Suc p * q) = g ((j + p * q) + q)" by (simp add: algebra_simps)
  then show ?case using assms Suc by simp
qed

lemma sum_shift_periodic:
  fixes g :: "nat \<Rightarrow> complex"
  assumes "\<forall>j. g (j + q) = g j"
  shows "(\<Sum>k<p * q. g (k + s)) = (\<Sum>k<p * q. g k)"
proof (induction s)
  case 0 show ?case by simp
next
  case (Suc s)
  have "(\<Sum>k<p * q. g (k + Suc s)) = (\<Sum>k<p * q. g (Suc (k + s)))" by simp
  also have "\<dots> = (\<Sum>k<p * q. g (k + s)) - g (0 + s) + g (p * q + s)"
    using sum_shift_one[of "\<lambda>k. g (k + s)" "p * q"] by simp
  also have "g (p * q + s) = g s" using periodic_fun_mult[where g = g and q = q and j = s and p = p] assms by (simp add: add.commute)
  finally show ?case using Suc by simp
qed

lemma cis_period:
  assumes "0 < q"
  shows "cis (2 * pi * (real (j + q) / real q)) = cis (2 * pi * (real j / real q))"
proof -
  have "2 * pi * (real (j + q) / real q) = 2 * pi * (real j / real q) + 2 * pi"
    using assms by (simp add: field_simps)
  then show ?thesis by (simp add: cis_mult[symmetric])
qed

text \<open>The projection of a periodic signal whose window starts \<open>s\<close> samples later.\<close>

lemma coeff_shift:
  fixes sig :: "nat \<Rightarrow> real"
  assumes q: "0 < q" and per: "\<And>j. sig (j + q) = sig j"
  shows "(\<Sum>k<p * q. cis (2 * pi * (real k / real q)) * complex_of_real (sig (k + s)))
       = cis (- (2 * pi * (real s / real q)))
         * (\<Sum>k<p * q. cis (2 * pi * (real k / real q)) * complex_of_real (sig k))"
proof -
  let ?g = "\<lambda>j. cis (2 * pi * (real j / real q)) * complex_of_real (sig j)"
  have gper: "\<forall>j. ?g (j + q) = ?g j" using cis_period[OF q] per by simp
  have "\<And>k. cis (2 * pi * (real k / real q)) = cis (- (2 * pi * (real s / real q))) * cis (2 * pi * (real (k + s) / real q))"
    by (simp add: cis_mult add_divide_distrib algebra_simps)
  then have "(\<Sum>k<p * q. cis (2 * pi * (real k / real q)) * complex_of_real (sig (k + s)))
        = (\<Sum>k<p * q. cis (- (2 * pi * (real s / real q))) * ?g (k + s))"
    by (simp add: mult.assoc)
  also have "\<dots> = cis (- (2 * pi * (real s / real q))) * (\<Sum>k<p * q. ?g (k + s))"
    by (simp add: sum_distrib_left)
  also have "(\<Sum>k<p * q. ?g (k + s)) = (\<Sum>k<p * q. ?g k)"
    using sum_shift_periodic[where g = ?g and q = q and p = p and s = s] gper by blast
  finally show ?thesis .
qed


lemma spec_coeff_unfold:
  assumes "0 < q" and "0 < p"
  shows "spec_coeff xs (int p) (p * q)
       = (\<Sum>k<p * q. cis (2 * pi * (real k / real q)) * complex_of_real (xs ! k)) / of_nat (p * q)"
proof -
  have "\<And>k. real k * (real_of_int (int p) / real (p * q)) = real k / real q"
    using assms by (simp add: field_simps)
  then show ?thesis unfolding spec_coeff_def by simp
qed

lemma spec_coeff_shift:
  assumes per: "periodic q data" and q: "0 < q" and p: "0 < p"
    and s: "s \<le> length data" and n: "p * q \<le> length data - s"
  shows "spec_coeff (drop s data) (int p) (p * q)
       = cis (- (2 * pi * (real s / real q)))
         * spec_coeff (take (length data - s) data) (int p) (p * q)"
proof -
  define sig where "sig j = data ! (j mod q)" for j
  have sper: "\<And>j. sig (j + q) = sig j" by (simp add: sig_def)
  have a: "\<And>k. k < p * q \<Longrightarrow> drop s data ! k = sig (k + s)"
  proof -
    fix k assume "k < p * q"
    then have "k + s < length data" using n s by linarith
    then show "drop s data ! k = sig (k + s)"
      using periodic_mod[OF per q, of "k + s"] s by (simp add: sig_def add.commute)
  qed
  have b: "\<And>k. k < p * q \<Longrightarrow> take (length data - s) data ! k = sig k"
  proof -
    fix k assume k: "k < p * q"
    then have "k < length data" using n s by linarith
    then show "take (length data - s) data ! k = sig k"
      using periodic_mod[OF per q, of k] k n by (simp add: sig_def)
  qed
  have "(\<Sum>k<p * q. cis (2 * pi * (real k / real q)) * complex_of_real (drop s data ! k))
      = (\<Sum>k<p * q. cis (2 * pi * (real k / real q)) * complex_of_real (sig (k + s)))"
    by (rule sum.cong) (simp_all add: a)
  also have "\<dots> = cis (- (2 * pi * (real s / real q)))
         * (\<Sum>k<p * q. cis (2 * pi * (real k / real q)) * complex_of_real (sig k))"
    using coeff_shift[where sig = sig and q = q and p = p and s = s] q sper by blast
  also have "(\<Sum>k<p * q. cis (2 * pi * (real k / real q)) * complex_of_real (sig k))
      = (\<Sum>k<p * q. cis (2 * pi * (real k / real q)) * complex_of_real (take (length data - s) data ! k))"
    by (rule sum.cong) (simp_all add: b)
  finally show ?thesis
    unfolding spec_coeff_unfold[OF q p] by simp
qed

lemma dft_calc_eq:
  "dft_calc data interval freq =
     (if freq = 0 \<or> interval = 0 then Inl ZeroDivisionError
      else if py_round ((1 / freq) / interval) < 5 then Inl (TooLargeTimestep interval freq)
      else if int (length data) div py_round ((1 / freq) / interval) < 1
        then Inl (TooSmallTimestep interval freq)
      else Inr (4 * cmod (spec_coeff data (int (length data) div py_round ((1 / freq) / interval))
                   (nat (int (length data) div py_round ((1 / freq) / interval)
                          * py_round ((1 / freq) / interval)))),
                degrees (Arg (spec_coeff data (int (length data) div py_round ((1 / freq) / interval))
                   (nat (int (length data) div py_round ((1 / freq) / interval)
                          * py_round ((1 / freq) / interval)))))))"
proof (cases "freq \<noteq> 0 \<and> interval \<noteq> 0 \<and> 5 \<le> py_round ((1 / freq) / interval)
              \<and> 1 \<le> int (length data) div py_round ((1 / freq) / interval)")
  case True
  then show ?thesis using dft_calc_ok[of freq interval data] by (simp add: Let_def)
next
  case False
  then show ?thesis unfolding dft_calc_def Let_def by auto
qed

lemma Arg_cis_mult:
  assumes "c \<noteq> 0"
  shows "\<exists>k::int. Arg (cis t * c) = Arg c + t + 2 * pi * real_of_int k"
proof -
  have nz: "cis t * c \<noteq> 0" using assms by simp
  have "cis (Arg (cis t * c)) = sgn (cis t * c)" by (rule cis_Arg[OF nz])
  also have "\<dots> = cis t * sgn c" by (simp add: sgn_mult sgn_eq norm_mult)
  also have "\<dots> = cis t * cis (Arg c)" by (simp add: cis_Arg[OF assms])
  also have "\<dots> = cis (Arg c + t)" by (simp add: cis_mult add.commute)
  finally have "cis (Arg (cis t * c)) = cis (Arg c + t)" .
  then have "sin (Arg (cis t * c)) = sin (Arg c + t) \<and> cos (Arg (cis t * c)) = cos (Arg c + t)"
    by (simp add: complex_eq_iff)
  then show ?thesis using sin_cos_eq_iff[of "Arg (cis t * c)" "Arg c + t"] by blast
qed


lemma window_coeff_shift:
  assumes per: "periodic (nat r) data" and s: "s \<le> length data"
    and r: "5 \<le> r" and P: "1 \<le> int (length data - s) div r"
  shows "spec_coeff (drop s data) (int (length data - s) div r) (nat (int (length data - s) div r * r))
       = cis (- (2 * pi * (real s / real_of_int r)))
         * spec_coeff (take (length data - s) data) (int (length data - s) div r)
             (nat (int (length data - s) div r * r))"
proof -
  let ?L = "length data - s"
  let ?P = "int ?L div r"
  define p where "p = nat ?P"
  define q where "q = nat r"
  have q: "0 < q" "real q = real_of_int r" "int q = r" using r by (simp_all add: q_def)
  have p: "0 < p" "int p = ?P" using P by (simp_all add: p_def)
  have n: "nat (?P * r) = p * q" using r P by (simp add: p_def q_def nat_mult_distrib)
  have le: "p * q \<le> ?L" using samples_le_length[of r ?L] r n by simp
  show ?thesis
    using spec_coeff_shift[of q data p s] per q p s le
    unfolding n by (simp add: q_def)
qed

text \<open>
  C8. Let the buffer repeat with the period \<open>spp\<close> of the extractor (at least 5 samples), and
  compare the buffer shifted by \<open>s\<close> samples with the unshifted buffer of the same length.
  A shift by a whole number of periods leaves the extractor's result unchanged, amplitude
  and phase (and failure) alike. For any shift the amplitude is unchanged, and where it is
  not zero the phase changes by \<open>- 360 * s / spp\<close> degrees, up to whole turns.
\<close>

theorem dft_shift:
  assumes spp: "spp = py_round (1 / (freq * interval))" and pos: "5 \<le> spp"
    and per: "periodic (nat spp) data" and s: "s \<le> length data"
  shows "((\<exists>m. s = m * nat spp) \<longrightarrow>
            dft_calc (drop s data) interval freq
              = dft_calc (take (length data - s) data) interval freq)
       \<and> (\<forall>a p a' p'.
            dft_calc (take (length data - s) data) interval freq = Inr (a, p)
            \<and> dft_calc (drop s data) interval freq = Inr (a', p')
            \<longrightarrow> a' = a
                \<and> (a \<noteq> 0 \<longrightarrow>
                     (\<exists>k::int. p' = p - 360 * (real s / real_of_int spp) + 360 * real_of_int k)))"
proof -
  let ?L = "length data - s"
  let ?P = "int ?L div spp"
  let ?n = "nat (?P * spp)"
  let ?th = "2 * pi * (real s / real_of_int spp)"
  let ?c = "spec_coeff (take ?L data) ?P ?n"
  let ?c' = "spec_coeff (drop s data) ?P ?n"
  have r: "py_round ((1 / freq) / interval) = spp"
    using spp by (simp add: divide_divide_eq_left)
  have len: "length (drop s data) = ?L" "length (take ?L data) = ?L" by simp_all
  have shift: "1 \<le> ?P \<Longrightarrow> ?c' = cis (- ?th) * ?c"
    using window_coeff_shift[OF per s pos] by simp
  have eq1: "dft_calc (take ?L data) interval freq =
     (if freq = 0 \<or> interval = 0 then Inl ZeroDivisionError
      else if ?P < 1 then Inl (TooSmallTimestep interval freq)
      else Inr (4 * cmod ?c, degrees (Arg ?c)))"
    using pos unfolding dft_calc_eq[of "take ?L data"] len r by simp
  have eq2: "dft_calc (drop s data) interval freq =
     (if freq = 0 \<or> interval = 0 then Inl ZeroDivisionError
      else if ?P < 1 then Inl (TooSmallTimestep interval freq)
      else Inr (4 * cmod ?c', degrees (Arg ?c')))"
    using pos unfolding dft_calc_eq[of "drop s data"] len r by simp
  have whole: "dft_calc (drop s data) interval freq = dft_calc (take ?L data) interval freq"
    if "s = m * nat spp" for m
  proof (cases "1 \<le> ?P")
    case True
    have "real s / real_of_int spp = real m" using that pos by simp
    then have "cis (- ?th) = 1" by (simp add: cis_cnj[symmetric] del: cis_cnj)
    then have "?c' = ?c" using shift[OF True] by simp
    then show ?thesis unfolding eq1 eq2 by simp
  next
    case False
    then show ?thesis unfolding eq1 eq2 by simp
  qed
  have general: "a' = a \<and> (a \<noteq> 0 \<longrightarrow>
                     (\<exists>k::int. p' = p - 360 * (real s / real_of_int spp) + 360 * real_of_int k))"
    if h1: "dft_calc (take ?L data) interval freq = Inr (a, p)"
      and h2: "dft_calc (drop s data) interval freq = Inr (a', p')" for a p a' p'
  proof -
    have P: "1 \<le> ?P" using h1 unfolding eq1 by (auto split: if_splits)
    have a: "a = 4 * cmod ?c" "p = degrees (Arg ?c)" using h1 P unfolding eq1 by (auto split: if_splits)
    have a': "a' = 4 * cmod ?c'" "p' = degrees (Arg ?c')" using h2 P unfolding eq2 by (auto split: if_splits)
    have c': "?c' = cis (- ?th) * ?c" by (rule shift[OF P])
    have amp: "a' = a" unfolding a a' c' by (simp add: norm_mult)
    have ph: "\<exists>k::int. p' = p - 360 * (real s / real_of_int spp) + 360 * real_of_int k" if "a \<noteq> 0"
    proof -
      from that a have nz: "?c \<noteq> 0" by auto
      obtain k :: int where k: "Arg (cis (- ?th) * ?c) = Arg ?c + (- ?th) + 2 * pi * real_of_int k"
        using Arg_cis_mult[OF nz, of "- ?th"] by blast
      have "p' = (Arg ?c + (- ?th) + 2 * pi * real_of_int k) * 180 / pi"
        unfolding a' c' k degrees_def by simp
      also have "\<dots> = p - 360 * (real s / real_of_int spp) + 360 * real_of_int k"
        unfolding a degrees_def using pi_gt_zero by (simp add: field_simps)
      finally show ?thesis by blast
    qed
    from amp ph show ?thesis by blast
  qed
  from whole general show ?thesis by blast
qed


theorem dft_shift_witness:
  "py_round (1 / (1 / 5 * 1)) = 5 \<and> periodic (nat 5) [1, 2, 3, 4, 5, 1, 2, 3, 4, 5]
   \<and> dft_calc (drop 5 [1, 2, 3, 4, 5, 1, 2, 3, 4, 5]) 1 (1 / 5)
       = dft_calc (take (length [1, 2, 3, 4, 5, 1, 2, 3, 4, 5 :: real] - 5)
           [1, 2, 3, 4, 5, 1, 2, 3, 4, 5]) 1 (1 / 5)"
proof -
  have r: "py_round (1 / (1 / 5 * 1)) = 5" by (simp add: py_round_def)
  have u: "[0 ..< 5] = [0, 1, 2, 3, 4]" by (simp add: upt_rec)
  have per: "periodic (nat 5) [1, 2, 3, 4, 5, 1, 2, 3, 4, 5]"
    by (simp add: periodic_def u)
  have eq: "dft_calc (drop 5 [1, 2, 3, 4, 5, 1, 2, 3, 4, 5]) 1 (1 / 5)
       = dft_calc (take (length [1, 2, 3, 4, 5, 1, 2, 3, 4, 5 :: real] - 5)
           [1, 2, 3, 4, 5, 1, 2, 3, 4, 5]) 1 (1 / 5)"
  proof (rule dft_shift[of 5 "1 / 5" 1 "[1, 2, 3, 4, 5, 1, 2, 3, 4, 5]" 5, THEN conjunct1, THEN mp])
    show "5 = py_round (1 / (1 / 5 * 1))" using r by simp
    show "(5::int) \<le> 5" by simp
    show "periodic (nat 5) [1, 2, 3, 4, 5, 1, 2, 3, 4, 5]" by (rule per)
    show "5 \<le> length [1, 2, 3, 4, 5, 1, 2, 3, 4, 5 :: real]" by simp
    show "\<exists>m. (5::nat) = m * nat 5" by (intro exI[of _ 1]) simp
  qed
  from r per eq show ?thesis by blast
qed

section \<open>The sweep\<close>

lemma measure_results_length:
  "measure_succeeds m fs s \<Longrightarrow> length (measure_results m fs s) = length fs"
  by (induction fs arbitrary: s) (auto split: prod.splits sum.splits)

lemma loop_rows:
  "measure_succeeds m fs s \<Longrightarrow> list_all (\<lambda>r. 0 < fst r) (measure_results m fs s) \<Longrightarrow>
   fst (freqresp_loop m fs s) = (map2 spec_row fs (measure_results m fs s), None)"
proof (induction fs arbitrary: s)
  case Nil
  show ?case by simp
next
  case (Cons f fs)
  obtain res s' where m: "m f s = (res, s')" by (cases "m f s")
  with Cons.prems(1) obtain a p where res: "res = Inr (a, p)"
    by (cases res) auto
  from Cons.prems m res have ok: "measure_succeeds m fs s'" "0 < a"
    "list_all (\<lambda>r. 0 < fst r) (measure_results m fs s')" by simp_all
  from Cons.IH[OF ok(1) ok(3)] obtain s'' where
    "freqresp_loop m fs s' = ((map2 spec_row fs (measure_results m fs s'), None), s'')"
    by (cases "freqresp_loop m fs s'") auto
  then show ?case using m res ok(2) by (simp add: spec_row_def)
qed

lemma map_row_freq_map2:
  "length rs = length fs \<Longrightarrow> map row_freq (map2 spec_row fs rs) = fs"
proof (induction fs arbitrary: rs)
  case Nil then show ?case by simp
next
  case (Cons f fs)
  then show ?case by (cases rs) (simp_all add: spec_row_def)
qed

lemma loop_append_fail:
  assumes "freqresp_loop m pre s = ((rows, None), s1)" and "m f s1 = (Inl e, s2)"
  shows "freqresp_loop m (pre @ f # post) s = ((rows, Some e), s2)"
  using assms
proof (induction pre arbitrary: s rows)
  case Nil
  then show ?case by simp
next
  case (Cons g pre)
  obtain res s' where m: "m g s = (res, s')" by (cases "m g s")
  from Cons.prems(1) m obtain a p where res: "res = Inr (a, p)" and a: "0 < a"
    by (cases res) (auto split: if_splits)
  obtain rows' r' s'' where l: "freqresp_loop m pre s' = ((rows', r'), s'')"
    by (metis prod.exhaust)
  from Cons.prems(1) m res a l have eq: "rows = \<lparr>row_freq = g, row_amplitude = a, row_dB = 10 * log 10 a, row_phase = p\<rparr> # rows'"
    "r' = None" "s'' = s1" by simp_all
  from Cons.IH[of s' rows'] l eq Cons.prems(2)
  have "freqresp_loop m (pre @ f # post) s' = ((rows', Some e), s2)" by simp
  then show ?case using m res a eq by simp
qed

lemma loop_length:
  "freqresp_loop m fs s = ((rows, None), s1) \<Longrightarrow> map row_freq rows = fs"
proof (induction fs arbitrary: s rows)
  case Nil then show ?case by simp
next
  case (Cons g fs)
  obtain res s' where m: "m g s = (res, s')" by (cases "m g s")
  from Cons.prems(1) m obtain a p where res: "res = Inr (a, p)" and a: "0 < a"
    by (cases res) (auto split: if_splits)
  obtain rows' r' s'' where l: "freqresp_loop m fs s' = ((rows', r'), s'')"
    by (metis prod.exhaust)
  from Cons.prems(1) m res a l have eq: "rows = \<lparr>row_freq = g, row_amplitude = a, row_dB = 10 * log 10 a, row_phase = p\<rparr> # rows'"
    "r' = None" "s'' = s1" by simp_all
  from Cons.IH[of s' rows'] l eq show ?case by simp
qed


lemma upt_3: "[0 ..< 3] = [0, 1, 2]"
  by (simp add: upt_rec)

lemma upt_5: "[0 ..< 5] = [0, 1, 2, 3, 4]"
  by (simp add: upt_rec)

lemma arange_1_4: "sweep_freqs 1 4 10 (Some 1) = Inr [1, 2, 3]"
  by (simp add: sweep_freqs_def arange_def upt_3)

lemma arange_0_10: "sweep_freqs 0 10 10 (Some 2) = Inr [0, 2, 4, 6, 8]"
  by (simp add: sweep_freqs_def arange_def upt_5)

text \<open>
  C6, as the code has it. When the measure function succeeds on each point of the generated
  frequency list and every amplitude ratio it returns is positive, the sweep ends without an
  error and yields exactly one row per frequency, in the order of the frequencies; each row
  holds the frequency, the amplitude ratio and the phase measured there, and its dB field is
  10 times the decimal logarithm of the amplitude ratio.
\<close>

theorem sweep_rows:
  assumes "sweep_freqs freq_min freq_max log_stepsdec lin_interval = Inr freqs"
    and "measure_succeeds measure_fn freqs s"
    and "list_all (\<lambda>r. 0 < fst r) (measure_results measure_fn freqs s)"
  shows "\<exists>rows. fst (freqresp_iter freq_min freq_max log_stepsdec lin_interval measure_fn s)
               = (rows, None)
           \<and> rows = map2 spec_row freqs (measure_results measure_fn freqs s)
           \<and> length rows = length freqs \<and> map row_freq rows = freqs
           \<and> list_all (\<lambda>r. row_dB r = 10 * log 10 (row_amplitude r)) rows"
proof -
  let ?rs = "measure_results measure_fn freqs s"
  have len: "length ?rs = length freqs" by (rule measure_results_length[OF assms(2)])
  have "list_all (\<lambda>r. row_dB r = 10 * log 10 (row_amplitude r)) (map2 spec_row freqs ?rs)"
    by (auto simp: list_all_iff spec_row_def)
  with loop_rows[OF assms(2,3)] len map_row_freq_map2[OF len] assms(1) show ?thesis
    by (simp add: freqresp_iter_def)
qed

theorem sweep_rows_witness:
  "sweep_freqs 1 4 10 (Some 1) = Inr [1, 2, 3]
   \<and> fst (freqresp_iter 1 4 10 (Some 1) (\<lambda>f s. (Inr (10, 45), s)) ())
       = ([\<lparr>row_freq = 1, row_amplitude = 10, row_dB = 10, row_phase = 45\<rparr>,
           \<lparr>row_freq = 2, row_amplitude = 10, row_dB = 10, row_phase = 45\<rparr>,
           \<lparr>row_freq = 3, row_amplitude = 10, row_dB = 10, row_phase = 45\<rparr>], None)"
proof -
  let ?m = "\<lambda>(f::real) (s::unit). (Inr (10::real, 45::real) :: error + real \<times> real, s)"
  have ok: "measure_succeeds ?m [1, 2, 3] ()" by simp
  have res: "measure_results ?m [1, 2, 3] () = [(10, 45), (10, 45), (10, 45)]" by simp
  have pos: "list_all (\<lambda>r. 0 < fst r) (measure_results ?m [1, 2, 3] ())" unfolding res by simp
  from sweep_rows[OF arange_1_4 ok pos]
  have "fst (freqresp_iter 1 4 10 (Some 1) ?m ())
        = (map2 spec_row [1, 2, 3] (measure_results ?m [1, 2, 3] ()), None)" by blast
  then show ?thesis unfolding res using arange_1_4 by (simp add: spec_row_def)
qed

text \<open>
  C6 as the specification states it fails: a measure function that succeeds on each of three
  frequencies with the amplitude ratio 0 yields no row, because the logarithm raises
  ValueError at the first point.
\<close>

theorem sweep_rows_counterexample:
  "sweep_freqs 1 4 10 (Some 1) = Inr [1, 2, 3]
   \<and> freqresp_iter 1 4 10 (Some 1) (\<lambda>f s. (Inr (0, 0), s)) () = (([], Some ValueError), ())"
  using arange_1_4 by (simp add: freqresp_iter_def)

text \<open>
  C7, as the code has it. When the measure function fails at a frequency of the list, after
  the sweep over the earlier frequencies yielded its rows, the sweep yields exactly those
  rows, one per earlier frequency, and ends with the measure function's own error,
  unchanged; no row stands for the failed point or a later one, and the measure function
  is not called again.
\<close>

theorem sweep_abort:
  assumes "sweep_freqs freq_min freq_max log_stepsdec lin_interval = Inr (pre @ f # post)"
    and "freqresp_loop measure_fn pre s = ((rows, None), s1)"
    and "measure_fn f s1 = (Inl e, s2)"
  shows "freqresp_iter freq_min freq_max log_stepsdec lin_interval measure_fn s
           = ((rows, Some e), s2)
         \<and> map row_freq rows = pre"
  using loop_append_fail[OF assms(2,3), of post] loop_length[OF assms(2)] assms(1)
  by (simp add: freqresp_iter_def)

theorem sweep_abort_witness:
  "sweep_freqs 0 10 10 (Some 2) = Inr ([0, 2] @ 4 # [6, 8])
   \<and> freqresp_iter 0 10 10 (Some 2)
         (\<lambda>f s. if f = 4 then (Inl ZeroDivisionError, s) else (Inr (10, 45), s)) ()
       = (([\<lparr>row_freq = 0, row_amplitude = 10, row_dB = 10, row_phase = 45\<rparr>,
            \<lparr>row_freq = 2, row_amplitude = 10, row_dB = 10, row_phase = 45\<rparr>],
           Some ZeroDivisionError), ())"
proof -
  let ?m = "\<lambda>(f::real) (s::unit).
     if f = 4 then (Inl ZeroDivisionError :: error + real \<times> real, s) else (Inr (10, 45), s)"
  have fr: "sweep_freqs 0 10 10 (Some 2) = Inr ([0, 2] @ 4 # [6, 8])"
    using arange_0_10 by simp
  have pre: "freqresp_loop ?m [0, 2] ()
       = (([\<lparr>row_freq = 0, row_amplitude = 10, row_dB = 10, row_phase = 45\<rparr>,
            \<lparr>row_freq = 2, row_amplitude = 10, row_dB = 10, row_phase = 45\<rparr>], None), ())"
    by simp
  have fail: "?m 4 () = (Inl ZeroDivisionError, ())" by simp
  from sweep_abort[OF fr pre fail] fr show ?thesis by blast
qed

text \<open>
  C7 as the specification states it fails: the error that reaches the caller does not carry
  the offending frequency. A measure function failing with ValueError surfaces the same
  error whether the offending frequency is 1 or 2.
\<close>

theorem sweep_abort_counterexample:
  "freqresp_iter 1 2 10 (Some 1) (\<lambda>f s. (Inl ValueError, s)) () = (([], Some ValueError), ())
   \<and> freqresp_iter 2 3 10 (Some 1) (\<lambda>f s. (Inl ValueError, s)) () = (([], Some ValueError), ())
   \<and> sweep_freqs 1 2 10 (Some 1) = Inr [1] \<and> sweep_freqs 2 3 10 (Some 1) = Inr [2]"
  by (simp add: freqresp_iter_def sweep_freqs_def arange_def)

section \<open>The default measure function\<close>


lemma io_seq_write: "io_seq (port_write c) m evs = m (evs @ [Write c])"
  by (simp add: io_seq_def io_bind_def port_write_def)


lemma io_seq_sleep: "0 \<le> t \<Longrightarrow> io_seq (sleep t) m evs = m (evs @ [Sleep t])"
  by (simp add: io_seq_def io_bind_def sleep_def)


lemma io_bind_query_float:
  "io_bind (query_float ins q) f evs = f (reply_float ins evs q) (evs @ [Query q])"
  by (simp add: io_bind_def query_float_def)

lemma io_bind_query_binary:
  "io_bind (query_binary_values ins) f evs = f (reply_bytes ins evs) (evs @ [Query WAV_DATA])"
  by (simp add: io_bind_def query_binary_values_def)
















lemma set_channel_scale_1: "set_channel_scale ch 1 True evs = (Inr (), evs @ [Write (CHAN_SCAL ch 1)])"
  by (simp add: set_channel_scale_def vertical_scales_def port_write_def)



lemma io_seq_scale_1:
  "io_seq (set_channel_scale ch 1 True) m evs = m (evs @ [Write (CHAN_SCAL ch 1)])"
  by (simp add: io_seq_def io_bind_def set_channel_scale_1)






lemma io_bind_lift_Inr: "io_bind (lift (Inr x)) f evs = f x evs"
  by (simp add: io_bind_def lift_def)

lemma silent_fetch:
  "fetch_data silent_scope ch evs = (Inr [0], evs @ fetch_events ch)"
  unfolding fetch_data_def fetch_events_def
  by (simp add: io_seq_write io_bind_query_float io_bind_query_binary ret_def silent_scope_def to_volts_def)

lemma io_bind_silent_fetch:
  "io_bind (fetch_data silent_scope ch) f evs = f [0] (evs @ fetch_events ch)"
  by (simp add: io_bind_def silent_fetch)

lemma io_seq_scale_0:
  "io_seq (set_channel_scale ch 0 True) m evs = m (evs @ [Write (CHAN_SCAL ch (1 / 100))])"
  by (simp add: io_seq_def io_bind_def set_channel_scale_def vertical_scales_def port_write_def)




text \<open>
  C5, as the code has it. Once both channels are captured during auto-ranging, the
  auto-range step raises no error and writes a scale for each channel, an element of the
  list of vertical scales and hence positive: no zero scale is ever written. For a channel
  whose captured peak is zero the scale written is 0.01, the element nearest to zero, so
  the scale does not stay as it was.
\<close>

theorem autorange_zero_peak:
  assumes "0 \<le> delay"
    and "fetch_data ins 1
           (evs @ [Write (CHAN_SCAL 1 1), Write (CHAN_SCAL 2 1), Write TFORCE, Sleep delay, Write STOP])
         = (Inr d1, evs1)"
    and "np_max_abs d1 = Inr a1"
    and "fetch_data ins 2 evs1 = (Inr d2, evs2)"
    and "np_max_abs d2 = Inr a2"
  shows "\<exists>v1 v2. autorange_block ins delay evs
             = (Inr (), evs2 @ [Write (CHAN_SCAL 1 v1), Write (CHAN_SCAL 2 v2), Write RUN])
           \<and> v1 \<in> set vertical_scales \<and> 0 < v1 \<and> (a1 = 0 \<longrightarrow> v1 = 1 / 100)
           \<and> v2 \<in> set vertical_scales \<and> 0 < v2 \<and> (a2 = 0 \<longrightarrow> v2 = 1 / 100)"
proof -
  have ne: "vertical_scales \<noteq> []" by (simp add: vertical_scales_def)
  have zero: "min_key (\<lambda>x. \<bar>x - 0 / 4\<bar>) vertical_scales = Some (1 / 100)"
    by (simp add: vertical_scales_def)
  obtain v1 where v1: "min_key (\<lambda>x. \<bar>x - a1 / 4\<bar>) vertical_scales = Some v1"
      "v1 \<in> set vertical_scales"
    using min_key_Some[OF ne, of "\<lambda>x. \<bar>x - a1 / 4\<bar>"] by blast
  obtain v2 where v2: "min_key (\<lambda>x. \<bar>x - a2 / 4\<bar>) vertical_scales = Some v2"
      "v2 \<in> set vertical_scales"
    using min_key_Some[OF ne, of "\<lambda>x. \<bar>x - a2 / 4\<bar>"] by blast
  have pos: "0 < v1" "0 < v2" using v1(2) v2(2) by (auto simp: vertical_scales_def)
  have z1: "a1 = 0 \<longrightarrow> v1 = 1 / 100" using v1(1) zero by auto
  have z2: "a2 = 0 \<longrightarrow> v2 = 1 / 100" using v2(1) zero by auto
  have s1: "io_seq (set_channel_scale 1 (a1 / 4) True) m e = m (e @ [Write (CHAN_SCAL 1 v1)])"
    for m :: "unit io" and e
    using v1(1) by (simp add: io_seq_def io_bind_def set_channel_scale_def port_write_def)
  have s2: "io_seq (set_channel_scale 2 (a2 / 4) True) m e = m (e @ [Write (CHAN_SCAL 2 v2)])"
    for m :: "unit io" and e
    using v2(1) by (simp add: io_seq_def io_bind_def set_channel_scale_def port_write_def)
  have b1: "io_bind (fetch_data ins 1) f
        (evs @ [Write (CHAN_SCAL 1 1), Write (CHAN_SCAL 2 1), Write TFORCE, Sleep delay, Write STOP])
      = f d1 evs1" for f :: "real list \<Rightarrow> unit io"
    by (simp add: io_bind_def assms(2))
  have b2: "io_bind (fetch_data ins 2) f evs1 = f d2 evs2" for f :: "real list \<Rightarrow> unit io"
    by (simp add: io_bind_def assms(4))
  have "autorange_block ins delay evs
      = (Inr (), evs2 @ [Write (CHAN_SCAL 1 v1), Write (CHAN_SCAL 2 v2), Write RUN])"
    unfolding autorange_block_def force_trigger_def stop_def run_def
    using assms(1)
    by (simp add: io_seq_scale_1 io_seq_write io_seq_sleep b1 assms(3) io_bind_lift_Inr
        b2 assms(5) s1 s2 port_write_def)
  with v1(2) v2(2) pos z1 z2 show ?thesis by blast
qed

theorem autorange_zero_peak_witness:
  "fetch_data silent_scope 1
      ([] @ [Write (CHAN_SCAL 1 1), Write (CHAN_SCAL 2 1), Write TFORCE, Sleep 1, Write STOP])
    = (Inr [0], [Write (CHAN_SCAL 1 1), Write (CHAN_SCAL 2 1), Write TFORCE, Sleep 1, Write STOP]
                 @ fetch_events 1)
   \<and> np_max_abs [0] = Inr 0
   \<and> autorange_block silent_scope 1 []
       = (Inr (), ([Write (CHAN_SCAL 1 1), Write (CHAN_SCAL 2 1), Write TFORCE, Sleep 1, Write STOP]
                      @ fetch_events 1) @ fetch_events 2
                      @ [Write (CHAN_SCAL 1 (1 / 100)), Write (CHAN_SCAL 2 (1 / 100)), Write RUN])"
proof -
  let ?pre = "[Write (CHAN_SCAL 1 1), Write (CHAN_SCAL 2 1), Write TFORCE, Sleep 1, Write STOP]"
  have f1: "fetch_data silent_scope 1 ([] @ ?pre) = (Inr [0], ?pre @ fetch_events 1)"
    using silent_fetch[of 1 ?pre] by simp
  have f2: "fetch_data silent_scope 2 (?pre @ fetch_events 1)
       = (Inr [0], (?pre @ fetch_events 1) @ fetch_events 2)"
    by (rule silent_fetch)
  have p: "np_max_abs [0] = Inr 0" by (simp add: np_max_abs_def)
  have d: "(0::real) \<le> 1" by simp
  from autorange_zero_peak[OF d f1 p f2 p] obtain v1 v2 where
    "autorange_block silent_scope 1 []
       = (Inr (), ((?pre @ fetch_events 1) @ fetch_events 2)
                    @ [Write (CHAN_SCAL 1 v1), Write (CHAN_SCAL 2 v2), Write RUN])"
    and "v1 = 1 / 100" and "v2 = 1 / 100"
    by blast
  with f1 p show ?thesis by simp
qed

text \<open>
  C5 as the specification states it fails: on a scope without signal the auto-range step
  neither raises an error nor leaves the scales unchanged; it sets both channels to 0.01.
\<close>

theorem autorange_zero_peak_counterexample:
  "fst (fetch_data silent_scope 1
      [Write (CHAN_SCAL 1 1), Write (CHAN_SCAL 2 1), Write TFORCE, Sleep 1, Write STOP]) = Inr [0]
   \<and> np_max_abs [0] = Inr 0
   \<and> autorange_block silent_scope 1 []
       = (Inr (), [Write (CHAN_SCAL 1 1), Write (CHAN_SCAL 2 1), Write TFORCE, Sleep 1, Write STOP]
                      @ fetch_events 1 @ fetch_events 2
                      @ [Write (CHAN_SCAL 1 (1 / 100)), Write (CHAN_SCAL 2 (1 / 100)), Write RUN])"
proof -
  have a: "fst (fetch_data silent_scope 1
      [Write (CHAN_SCAL 1 1), Write (CHAN_SCAL 2 1), Write TFORCE, Sleep 1, Write STOP]) = Inr [0]"
    by (simp add: silent_fetch)
  have p: "np_max_abs [0] = Inr 0" by (simp add: np_max_abs_def)
  have b: "autorange_block silent_scope 1 []
       = (Inr (), [Write (CHAN_SCAL 1 1), Write (CHAN_SCAL 2 1), Write TFORCE, Sleep 1, Write STOP]
                      @ fetch_events 1 @ fetch_events 2
                      @ [Write (CHAN_SCAL 1 (1 / 100)), Write (CHAN_SCAL 2 (1 / 100)), Write RUN])"
    unfolding autorange_block_def force_trigger_def stop_def run_def
    by (simp add: io_seq_scale_1 io_seq_write io_seq_sleep io_bind_silent_fetch p
        io_bind_lift_Inr io_seq_scale_0 port_write_def)
  from a p b show ?thesis by blast
qed

section \<open>The logarithmic frequency list\<close>
























end
